theory Spec2Isabelle
  imports Main "HOL-Library.Sublist"
begin

section \<open>JavaScript strings and values\<close>

text \<open>
  A JavaScript string is modelled as a \<open>string\<close> (a list of \<open>char\<close>), one \<open>char\<close> per
  code unit; the embedding therefore covers the code units 0 to 255. Output written with
  \<open>console.warn\<close> is not part of any returned value and is left out of the model.
\<close>

datatype error =
    ProxyError      \<comment> \<open>\<open>new Error("Proxy function didn't return a valid url")\<close>\<close>
  | SyntaxError     \<comment> \<open>thrown by \<open>JSON.parse\<close>\<close>
  | TypeError       \<comment> \<open>property read on \<open>null\<close>, call of a value that is no function\<close>
  | FetchError      \<comment> \<open>the transport failed: \<open>fetch\<close> or \<open>response.text()\<close> rejected\<close>
  | Unrepresentable \<comment> \<open>a code unit above 255 or a pattern outside the modelled fragment\<close>

datatype json =
    JNull
  | JBool bool
  | JNum string     \<comment> \<open>the number's lexeme\<close>
  | JString string
  | JArray "json list"
  | JObject "(string \<times> json) list"

text \<open>\<open>s.includes(p)\<close>: \<open>p\<close> occurs in \<open>s\<close> as a contiguous substring.\<close>

fun str_includes :: "string \<Rightarrow> string \<Rightarrow> bool" where
  "str_includes [] p = (p = [])"
| "str_includes (c # cs) p = (prefix p (c # cs) \<or> str_includes cs p)"

text \<open>\<open>s.replace(p, '')\<close> with a string pattern: the first occurrence of \<open>p\<close> is removed.\<close>

fun replace_first :: "string \<Rightarrow> string \<Rightarrow> string" where
  "replace_first [] p = []"
| "replace_first (c # cs) p =
     (if prefix p (c # cs) then drop (length p) (c # cs) else c # replace_first cs p)"

text \<open>
  \<open>s.split(sep)\<close> for a non-empty separator: the pieces between the occurrences of
  \<open>sep\<close>, found from left to right without overlap. \<open>split_go sep k cur s\<close> carries the
  piece read so far, reversed, and the number \<open>k\<close> of characters of a separator already
  recognised that are still to be passed over.
\<close>

fun split_go :: "string \<Rightarrow> nat \<Rightarrow> string \<Rightarrow> string \<Rightarrow> string list" where
  "split_go sep k cur [] = [rev cur]"
| "split_go sep (Suc k) cur (c # cs) = split_go sep k cur cs"
| "split_go sep 0 cur (c # cs) =
     (if prefix sep (c # cs) then rev cur # split_go sep (length sep - 1) [] cs
      else split_go sep 0 (c # cur) cs)"

definition str_split :: "string \<Rightarrow> string \<Rightarrow> string list" where
  "str_split s sep = split_go sep 0 [] s"

text \<open>Truthiness of \<open>line.trim()\<close>: the line has a character that is not white space.\<close>

definition is_js_space :: "char \<Rightarrow> bool" where
  "is_js_space c \<longleftrightarrow> c \<in> set [CHR 0x09, CHR 0x0A, CHR 0x0B, CHR 0x0C, CHR 0x0D, CHR 0x20, CHR 0xA0]"

definition trim_truthy :: "string \<Rightarrow> bool" where
  "trim_truthy s \<longleftrightarrow> list_ex (\<lambda>c. \<not> is_js_space c) s"

text \<open>The characters a regular expression's \<open>.\<close> does not match.\<close>

definition is_line_terminator :: "char \<Rightarrow> bool" where
  "is_line_terminator c \<longleftrightarrow> c = CHR 0x0A \<or> c = CHR 0x0D"

section \<open>\<open>JSON.parse\<close>\<close>

text \<open>
  \<open>JSON.parse\<close> is a built-in of the language; it is modelled after the JSON grammar of
  ECMA-404 in two passes, each a single left-to-right run of a step function: characters
  to tokens, tokens to a value. Any departure from the grammar is \<open>SyntaxError\<close>. A
  \<open>\uXXXX\<close> escape above 255 has no \<open>char\<close> and is reported as \<open>Unrepresentable\<close>.
\<close>

datatype token =
    TLBracket | TRBracket | TLBrace | TRBrace | TComma | TColon
  | TString string | TNumber string | TTrue | TFalse | TNull

datatype lmode =
    LNorm                 \<comment> \<open>between tokens\<close>
  | LStr string           \<comment> \<open>inside a string; the characters so far, reversed\<close>
  | LEsc string           \<comment> \<open>after a backslash inside a string\<close>
  | LUni string nat nat   \<comment> \<open>inside \<open>\u\<close>: hex digits still expected, value so far\<close>
  | LNum string           \<comment> \<open>inside a number; its characters so far, reversed\<close>
  | LLit string token     \<comment> \<open>inside \<open>true\<close>, \<open>false\<close>, \<open>null\<close>: characters still expected\<close>

definition is_digit :: "char \<Rightarrow> bool" where
  "is_digit c \<longleftrightarrow> c \<in> set ''0123456789''"

definition hex_val :: "char \<Rightarrow> nat option" where
  "hex_val c =
     (if c \<in> set ''0123456789'' then Some (of_char c - 48)
      else if c \<in> set ''abcdef'' then Some (of_char c - 87)
      else if c \<in> set ''ABCDEF'' then Some (of_char c - 55)
      else None)"

definition digits_val :: "nat \<Rightarrow> string \<Rightarrow> nat" where
  \<comment> \<open>the value of a run of digits in the given base\<close>
  "digits_val base s = foldl (\<lambda>v c. base * v + (case hex_val c of Some d \<Rightarrow> d | None \<Rightarrow> 0)) 0 s"

text \<open>The number grammar: \<open>-? (0 | [1-9][0-9]*) (. [0-9]+)? ([eE] [+-]? [0-9]+)?\<close>.\<close>

definition is_json_exponent :: "string \<Rightarrow> bool" where
  "is_json_exponent s =
     (case s of
        [] \<Rightarrow> True
      | e # r \<Rightarrow> (e = CHR ''e'' \<or> e = CHR ''E'') \<and>
          (let d = (case r of [] \<Rightarrow> [] | x # r' \<Rightarrow> if x = CHR ''+'' \<or> x = CHR ''-'' then r' else r)
           in d \<noteq> [] \<and> list_all is_digit d))"

definition is_json_fraction :: "string \<Rightarrow> bool" where
  "is_json_fraction s =
     (case s of
        [] \<Rightarrow> True
      | p # r \<Rightarrow> if p = CHR ''.'' then takeWhile is_digit r \<noteq> [] \<and> is_json_exponent (dropWhile is_digit r)
                 else is_json_exponent s)"

definition is_json_number :: "string \<Rightarrow> bool" where
  "is_json_number s =
     (let u = (case s of [] \<Rightarrow> [] | x # r \<Rightarrow> if x = CHR ''-'' then r else s);
          ds = takeWhile is_digit u
      in ds \<noteq> [] \<and> (if hd ds = CHR ''0'' then length ds = 1 else True)
         \<and> is_json_fraction (dropWhile is_digit u))"

definition lex_norm :: "char \<Rightarrow> error + (lmode \<times> token list)" where
  "lex_norm c =
     (if c \<in> set [CHR 0x20, CHR 0x09, CHR 0x0A, CHR 0x0D] then Inr (LNorm, [])
      else if c = CHR ''['' then Inr (LNorm, [TLBracket])
      else if c = CHR '']'' then Inr (LNorm, [TRBracket])
      else if c = CHR ''{'' then Inr (LNorm, [TLBrace])
      else if c = CHR ''}'' then Inr (LNorm, [TRBrace])
      else if c = CHR '','' then Inr (LNorm, [TComma])
      else if c = CHR '':'' then Inr (LNorm, [TColon])
      else if c = CHR 0x22 then Inr (LStr [], [])
      else if c = CHR ''-'' \<or> is_digit c then Inr (LNum [c], [])
      else if c = CHR ''t'' then Inr (LLit ''rue'' TTrue, [])
      else if c = CHR ''f'' then Inr (LLit ''alse'' TFalse, [])
      else if c = CHR ''n'' then Inr (LLit ''ull'' TNull, [])
      else Inl SyntaxError)"

definition lex_esc :: "string \<Rightarrow> char \<Rightarrow> error + (lmode \<times> token list)" where
  "lex_esc s c =
     (if c = CHR 0x22 \<or> c = CHR 0x5C \<or> c = CHR ''/'' then Inr (LStr (c # s), [])
      else if c = CHR ''b'' then Inr (LStr (CHR 0x08 # s), [])
      else if c = CHR ''f'' then Inr (LStr (CHR 0x0C # s), [])
      else if c = CHR ''n'' then Inr (LStr (CHR 0x0A # s), [])
      else if c = CHR ''r'' then Inr (LStr (CHR 0x0D # s), [])
      else if c = CHR ''t'' then Inr (LStr (CHR 0x09 # s), [])
      else if c = CHR ''u'' then Inr (LUni s 4 0, [])
      else Inl SyntaxError)"

definition lex_step :: "lmode \<Rightarrow> char \<Rightarrow> error + (lmode \<times> token list)" where
  "lex_step m c =
     (case m of
        LNorm \<Rightarrow> lex_norm c
      | LStr s \<Rightarrow>
          if c = CHR 0x22 then Inr (LNorm, [TString (rev s)])
          else if c = CHR 0x5C then Inr (LEsc s, [])
          else if (of_char c :: nat) < 32 then Inl SyntaxError
          else Inr (LStr (c # s), [])
      | LEsc s \<Rightarrow> lex_esc s c
      | LUni s k v \<Rightarrow>
          (case hex_val c of
             None \<Rightarrow> Inl SyntaxError
           | Some d \<Rightarrow>
               if k \<le> 1 then
                 (if 16 * v + d < 256 then Inr (LStr (char_of (16 * v + d) # s), [])
                  else Inl Unrepresentable)
               else Inr (LUni s (k - 1) (16 * v + d), []))
      | LNum n \<Rightarrow>
          if c \<in> set ''0123456789+-.eE'' then Inr (LNum (c # n), [])
          else if is_json_number (rev n) then
            (case lex_norm c of
               Inl e \<Rightarrow> Inl e
             | Inr (m', ts) \<Rightarrow> Inr (m', TNumber (rev n) # ts))
          else Inl SyntaxError
      | LLit r t \<Rightarrow>
          (case r of
             [] \<Rightarrow> Inl SyntaxError
           | x # r' \<Rightarrow>
               if c \<noteq> x then Inl SyntaxError
               else if r' = [] then Inr (LNorm, [t])
               else Inr (LLit r' t, [])))"

definition lex_end :: "lmode \<Rightarrow> error + token list" where
  "lex_end m =
     (case m of
        LNorm \<Rightarrow> Inr []
      | LNum n \<Rightarrow> if is_json_number (rev n) then Inr [TNumber (rev n)] else Inl SyntaxError
      | _ \<Rightarrow> Inl SyntaxError)"

fun lex_run :: "lmode \<Rightarrow> string \<Rightarrow> error + token list" where
  "lex_run m [] = lex_end m"
| "lex_run m (c # cs) =
     (case lex_step m c of
        Inl e \<Rightarrow> Inl e
      | Inr (m', ts) \<Rightarrow>
          (case lex_run m' cs of Inl e \<Rightarrow> Inl e | Inr r \<Rightarrow> Inr (ts @ r)))"

text \<open>
  The second pass keeps a stack of the arrays and objects that are still open. A frame
  holds what its container has received so far, reversed; an object frame also holds the
  key whose value is awaited.
\<close>

datatype frame = FArray "json list" | FObject "(string \<times> json) list" "string option"

datatype pmode =
    PValue          \<comment> \<open>a value must follow\<close>
  | PValueOrClose   \<comment> \<open>after \<open>[\<close>: a value or \<open>]\<close>\<close>
  | PKeyOrClose     \<comment> \<open>after \<open>{\<close>: a key or \<open>}\<close>\<close>
  | PKey            \<comment> \<open>after a comma in an object\<close>
  | PColon          \<comment> \<open>after a key\<close>
  | PAfter          \<comment> \<open>after a value inside a container\<close>
  | PDone json      \<comment> \<open>the whole value has been read\<close>

definition push_value :: "json \<Rightarrow> frame list \<Rightarrow> error + (pmode \<times> frame list)" where
  "push_value v fs =
     (case fs of
        [] \<Rightarrow> Inr (PDone v, [])
      | FArray xs # fs' \<Rightarrow> Inr (PAfter, FArray (v # xs) # fs')
      | FObject kvs (Some k) # fs' \<Rightarrow> Inr (PAfter, FObject ((k, v) # kvs) None # fs')
      | FObject kvs None # fs' \<Rightarrow> Inl SyntaxError)"

definition parse_value :: "token \<Rightarrow> frame list \<Rightarrow> error + (pmode \<times> frame list)" where
  "parse_value t fs =
     (case t of
        TString s \<Rightarrow> push_value (JString s) fs
      | TNumber n \<Rightarrow> push_value (JNum n) fs
      | TTrue \<Rightarrow> push_value (JBool True) fs
      | TFalse \<Rightarrow> push_value (JBool False) fs
      | TNull \<Rightarrow> push_value JNull fs
      | TLBracket \<Rightarrow> Inr (PValueOrClose, FArray [] # fs)
      | TLBrace \<Rightarrow> Inr (PKeyOrClose, FObject [] None # fs)
      | _ \<Rightarrow> Inl SyntaxError)"

definition parse_close :: "token \<Rightarrow> frame list \<Rightarrow> error + (pmode \<times> frame list)" where
  "parse_close t fs =
     (case (t, fs) of
        (TRBracket, FArray xs # fs') \<Rightarrow> push_value (JArray (rev xs)) fs'
      | (TRBrace, FObject kvs None # fs') \<Rightarrow> push_value (JObject (rev kvs)) fs'
      | _ \<Rightarrow> Inl SyntaxError)"

definition parse_key :: "token \<Rightarrow> frame list \<Rightarrow> error + (pmode \<times> frame list)" where
  "parse_key t fs =
     (case (t, fs) of
        (TString k, FObject kvs None # fs') \<Rightarrow> Inr (PColon, FObject kvs (Some k) # fs')
      | _ \<Rightarrow> Inl SyntaxError)"

definition parse_step :: "pmode \<Rightarrow> frame list \<Rightarrow> token \<Rightarrow> error + (pmode \<times> frame list)" where
  "parse_step m fs t =
     (case m of
        PValue \<Rightarrow> parse_value t fs
      | PValueOrClose \<Rightarrow> if t = TRBracket then parse_close t fs else parse_value t fs
      | PKeyOrClose \<Rightarrow> if t = TRBrace then parse_close t fs else parse_key t fs
      | PKey \<Rightarrow> parse_key t fs
      | PColon \<Rightarrow> if t = TColon then Inr (PValue, fs) else Inl SyntaxError
      | PAfter \<Rightarrow>
          if t = TComma then
            (case fs of
               FArray xs # fs' \<Rightarrow> Inr (PValue, fs)
             | FObject kvs k # fs' \<Rightarrow> Inr (PKey, fs)
             | [] \<Rightarrow> Inl SyntaxError)
          else parse_close t fs
      | PDone v \<Rightarrow> Inl SyntaxError)"

fun parse_run :: "pmode \<Rightarrow> frame list \<Rightarrow> token list \<Rightarrow> error + json" where
  "parse_run m fs [] = (case m of PDone v \<Rightarrow> Inr v | _ \<Rightarrow> Inl SyntaxError)"
| "parse_run m fs (t # ts) =
     (case parse_step m fs t of
        Inl e \<Rightarrow> Inl e
      | Inr (m', fs') \<Rightarrow> parse_run m' fs' ts)"

definition JSON_parse :: "string \<Rightarrow> error + json" where
  "JSON_parse s = (case lex_run LNorm s of Inl e \<Rightarrow> Inl e | Inr ts \<Rightarrow> parse_run PValue [] ts)"

section \<open>Reading a parsed track\<close>

text \<open>
  \<open>track.vssId\<close> and \<open>subtitle.baseUrl\<close> on a value that came out of \<open>JSON.parse\<close>.
  \<open>None\<close> is \<open>undefined\<close>. Reading a property of \<open>null\<close> throws; neither name is a
  property of a string, number, boolean or array; of duplicate keys the last one counts.
\<close>

definition get_member :: "json \<Rightarrow> string \<Rightarrow> error + json option" where
  "get_member v k =
     (case v of
        JNull \<Rightarrow> Inl TypeError
      | JObject kvs \<Rightarrow> Inr (map_of (rev kvs) k)
      | _ \<Rightarrow> Inr None)"

text \<open>
  Truthiness. A number is falsy when its value as a double is zero. The value of a lexeme
  with digits \<open>d\<close> (point removed) and decimal exponent \<open>k\<close> (the exponent part less the
  number of fraction digits) is \<open>d * 10^k\<close>; rounded to the nearest double, ties to even,
  it is zero exactly when \<open>d\<close> is zero or the value is at most \<open>2^-1075\<close>, half the least
  positive double.
\<close>

definition num_mantissa :: "string \<Rightarrow> string" where
  "num_mantissa n = takeWhile (\<lambda>c. c \<noteq> CHR ''e'' \<and> c \<noteq> CHR ''E'') n"

definition num_exponent :: "string \<Rightarrow> int" where
  "num_exponent n =
     (case dropWhile (\<lambda>c. c \<noteq> CHR ''e'' \<and> c \<noteq> CHR ''E'') n of
        [] \<Rightarrow> 0
      | e # r \<Rightarrow>
          if prefix ''-'' r then - int (digits_val 10 (drop 1 r))
          else if prefix ''+'' r then int (digits_val 10 (drop 1 r))
          else int (digits_val 10 r))"

definition num_is_zero :: "string \<Rightarrow> bool" where
  "num_is_zero n =
     (let d = digits_val 10 (filter is_digit (num_mantissa n));
          k = num_exponent n
                - int (length (filter is_digit (dropWhile (\<lambda>c. c \<noteq> CHR ''.'') (num_mantissa n))))
      in d = 0 \<or> (k < 0 \<and> d * 2 ^ 1075 \<le> 10 ^ nat (- k)))"

definition js_truthy :: "json option \<Rightarrow> bool" where
  "js_truthy v =
     (case v of
        None \<Rightarrow> False
      | Some JNull \<Rightarrow> False
      | Some (JBool b) \<Rightarrow> b
      | Some (JNum n) \<Rightarrow> \<not> num_is_zero n
      | Some (JString s) \<Rightarrow> s \<noteq> []
      | Some (JArray xs) \<Rightarrow> True
      | Some (JObject kvs) \<Rightarrow> True)"

section \<open>Track selection\<close>

text \<open>
  \<open>vssId.match(`.${lang}`)\<close> hands a string to \<open>String.prototype.match\<close>, which compiles
  it with \<open>new RegExp\<close>: the leading \<open>.\<close> is the pattern that matches any one character
  except a line terminator. The model covers a \<open>lang\<close> without pattern syntax characters,
  which then stands for itself; any other \<open>lang\<close> is \<open>Unrepresentable\<close>.
\<close>

definition regex_plain :: "string \<Rightarrow> bool" where
  "regex_plain l \<longleftrightarrow> list_all (\<lambda>c. c \<notin> set (CHR 0x5C # ''^$.*+?()[]{}|'')) l"

fun dot_lang_match :: "string \<Rightarrow> string \<Rightarrow> bool" where
  "dot_lang_match l [] = False"
| "dot_lang_match l (c # cs) = ((\<not> is_line_terminator c \<and> prefix l cs) \<or> dot_lang_match l cs)"

definition tier_exact :: "string \<Rightarrow> json \<Rightarrow> error + bool" where
  \<comment> \<open>\<open>track.vssId === s\<close>\<close>
  "tier_exact s track =
     (case get_member track ''vssId'' of
        Inl e \<Rightarrow> Inl e
      | Inr v \<Rightarrow> Inr (v = Some (JString s)))"

definition tier_loose :: "string \<Rightarrow> json \<Rightarrow> error + bool" where
  \<comment> \<open>\<open>track.vssId && track.vssId.match(`.${lang}`)\<close>\<close>
  "tier_loose l track =
     (case get_member track ''vssId'' of
        Inl e \<Rightarrow> Inl e
      | Inr v \<Rightarrow>
          if \<not> js_truthy v then Inr False
          else (case v of
                  Some (JString s) \<Rightarrow>
                    if regex_plain l then Inr (dot_lang_match l s) else Inl Unrepresentable
                | _ \<Rightarrow> Inl TypeError))"

text \<open>\<open>Array.prototype.find\<close> with a callback that may throw.\<close>

fun js_find :: "(json \<Rightarrow> error + bool) \<Rightarrow> json list \<Rightarrow> error + json option" where
  "js_find p [] = Inr None"
| "js_find p (x # xs) =
     (case p x of
        Inl e \<Rightarrow> Inl e
      | Inr b \<Rightarrow> if b then Inr (Some x) else js_find p xs)"

text \<open>
  The expression \<open>find(...) || find(...) || find(...)\<close>, written out three times in the
  source (index.ts 89-94 and 182-187, the second file 59-64). A track that a tier finds is
  an object, hence truthy, and ends the chain.
\<close>

definition selectTrack :: "json list \<Rightarrow> string \<Rightarrow> error + json option" where
  "selectTrack tracks l =
     (case js_find (tier_exact (''.'' @ l)) tracks of
        Inl e \<Rightarrow> Inl e
      | Inr (Some t) \<Rightarrow> Inr (Some t)
      | Inr None \<Rightarrow>
          (case js_find (tier_exact (''a.'' @ l)) tracks of
             Inl e \<Rightarrow> Inl e
           | Inr (Some t) \<Rightarrow> Inr (Some t)
           | Inr None \<Rightarrow> js_find (tier_loose l) tracks))"

section \<open>Locating the manifest in the page\<close>

text \<open>
  A lazy \<open>.*?\<close> followed by a fixed text: the shortest run of characters, none of them a
  line terminator, after which the text stands.
\<close>

fun lazy_until :: "string \<Rightarrow> string \<Rightarrow> string option" where
  "lazy_until stop [] = (if stop = [] then Some [] else None)"
| "lazy_until stop (c # cs) =
     (if prefix stop (c # cs) then Some []
      else if is_line_terminator c then None
      else map_option ((#) c) (lazy_until stop cs))"

text \<open>
  \<open>/"captionTracks":(\[.*?\])/.exec(data)\<close> of index.ts: the leftmost place where the
  pattern matches; the result is the text of group 1.
\<close>

fun captionTracks_exec :: "string \<Rightarrow> string option" where
  "captionTracks_exec [] = None"
| "captionTracks_exec (c # cs) =
     (if prefix (CHR 0x22 # ''captionTracks'' @ CHR 0x22 # '':['') (c # cs) then
        (case lazy_until '']'' (drop 17 (c # cs)) of
           Some body \<Rightarrow> Some (''['' @ body @ '']'')
         | None \<Rightarrow> captionTracks_exec cs)
      else captionTracks_exec cs)"

section \<open>The transcript\<close>

record Subtitle =
  start :: string
  dur :: string
  text' :: string

definition is_num_char :: "char \<Rightarrow> bool" where
  \<comment> \<open>the class \<open>[\d.]\<close>\<close>
  "is_num_char c \<longleftrightarrow> is_digit c \<or> c = CHR ''.''"

text \<open>
  \<open>/start="([\d.]+)"/.exec(line)\<close> and \<open>/dur="([\d.]+)"/.exec(line)\<close>: at the leftmost place
  where the attribute name, \<open>="\<close>, a non-empty run of digits and dots, and \<open>"\<close> stand in a
  row, the run. \<open>key\<close> is the text up to and including the opening quote.
\<close>

fun attr_exec :: "string \<Rightarrow> string \<Rightarrow> string option" where
  "attr_exec key [] = None"
| "attr_exec key (c # cs) =
     (if prefix key (c # cs) \<and> takeWhile is_num_char (drop (length key) (c # cs)) \<noteq> []
         \<and> prefix [CHR 0x22] (dropWhile is_num_char (drop (length key) (c # cs)))
      then Some (takeWhile is_num_char (drop (length key) (c # cs)))
      else attr_exec key cs)"

definition startRegex_exec :: "string \<Rightarrow> string option" where
  "startRegex_exec line = attr_exec (''start='' @ [CHR 0x22]) line"

definition durRegex_exec :: "string \<Rightarrow> string option" where
  "durRegex_exec line = attr_exec (''dur='' @ [CHR 0x22]) line"

text \<open>
  \<open>line.replace(/<text.+>/, '')\<close>. The \<open>.+\<close> is greedy: from the leftmost \<open><text\<close> that
  can be completed, the match runs over the characters up to the next line terminator
  and ends at the last \<open>>\<close> among them that leaves \<open>.+\<close> at least one character. Only this
  first match is removed.
\<close>

definition greedy_gt :: "string \<Rightarrow> nat option" where
  \<comment> \<open>how many characters after \<open><text\<close> the match takes\<close>
  "greedy_gt r =
     (let run = takeWhile (\<lambda>c. \<not> is_line_terminator c) r
      in if CHR ''>'' \<in> set (tl run)
         then Some (length run - length (takeWhile (\<lambda>c. c \<noteq> CHR ''>'') (rev run)))
         else None)"

fun remove_text_open :: "string \<Rightarrow> string" where
  "remove_text_open [] = []"
| "remove_text_open (c # cs) =
     (if prefix ''<text'' (c # cs) then
        (case greedy_gt (drop 5 (c # cs)) of
           Some n \<Rightarrow> drop n (drop 5 (c # cs))
         | None \<Rightarrow> c # remove_text_open cs)
      else c # remove_text_open cs)"

text \<open>
  \<open>.replace(/&amp;/gi, '&')\<close>: every occurrence, in any mix of upper and lower case. The
  counter is the number of characters of a match still to be passed over.
\<close>

definition is_amp :: "string \<Rightarrow> bool" where
  "is_amp s =
     (case s of
        [a, b, c, d, e] \<Rightarrow>
          a = CHR ''&'' \<and> b \<in> set ''aA'' \<and> c \<in> set ''mM'' \<and> d \<in> set ''pP'' \<and> e = CHR '';''
      | _ \<Rightarrow> False)"

fun unescape_amp :: "nat \<Rightarrow> string \<Rightarrow> string" where
  "unescape_amp k [] = []"
| "unescape_amp (Suc k) (c # cs) = unescape_amp k cs"
| "unescape_amp 0 (c # cs) =
     (if is_amp (take 5 (c # cs)) then CHR ''&'' # unescape_amp 4 cs
      else c # unescape_amp 0 cs)"

text \<open>
  \<open>.replace(/<\/?[^>]+(>|$)/g, '')\<close>: a \<open><\<close> that is followed by a character other than
  \<open>>\<close> is removed together with everything up to and including the next \<open>>\<close>, or up to
  the end when there is none. The flag says that the scan is inside such a match.
\<close>

fun remove_tags :: "bool \<Rightarrow> string \<Rightarrow> string" where
  "remove_tags b [] = []"
| "remove_tags True (c # cs) = (if c = CHR ''>'' then remove_tags False cs else remove_tags True cs)"
| "remove_tags False (c # cs) =
     (if c = CHR ''<'' \<and> cs \<noteq> [] \<and> hd cs \<noteq> CHR ''>'' then remove_tags True cs
      else c # remove_tags False cs)"

definition htmlText :: "string \<Rightarrow> string" where
  "htmlText line = remove_tags False (unescape_amp 0 (remove_text_open line))"

section \<open>The packages \<open>he\<close> and \<open>striptags\<close>\<close>

text \<open>
  Both are third-party packages. \<open>he.decode\<close> is modelled after the replacement that the
  package runs over its pattern \<open>regexDecode\<close>, with the default options (not strict, not
  an attribute value). The package's tables are parameters: the named references that end
  in a semicolon, the legacy names that may stand without one (in the order of the
  pattern), and the function from a numeric reference's code point to the text it
  becomes. Names are alphanumeric.
\<close>

record he_tables =
  decodeMap :: "string \<Rightarrow> string option"
  decodeMapLegacy :: "(string \<times> string) list"
  codePointToSymbol :: "nat \<Rightarrow> string"

definition is_alnum :: "char \<Rightarrow> bool" where
  "is_alnum c \<longleftrightarrow>
     is_digit c \<or> c \<in> set ''abcdefghijklmnopqrstuvwxyz'' \<or> c \<in> set ''ABCDEFGHIJKLMNOPQRSTUVWXYZ''"

definition semicolon_at :: "nat \<Rightarrow> string \<Rightarrow> nat" where
  \<comment> \<open>the optional \<open>;\<close> after \<open>n\<close> characters: 1 when it is there\<close>
  "semicolon_at n r = (if prefix '';'' (drop n r) then 1 else 0)"

text \<open>
  \<open>he_match he r\<close>: the alternatives of the pattern, in order, at an ampersand that is
  followed by \<open>r\<close>. The result is the replacement and how many characters of \<open>r\<close> the
  match takes.
\<close>

definition he_match :: "he_tables \<Rightarrow> string \<Rightarrow> (string \<times> nat) option" where
  "he_match he r =
     (let name = takeWhile (\<lambda>c. c \<noteq> CHR '';'') r in
      case (if length name < length r then decodeMap he name else None) of
        Some v \<Rightarrow> Some (v, length name + 1)
      | None \<Rightarrow>
         (case find (\<lambda>(n, v). prefix n r \<and> \<not> prefix '';'' (drop (length n) r)) (decodeMapLegacy he) of
            Some (n, v) \<Rightarrow>
              (let nx = filter (\<lambda>c. c = CHR ''='' \<or> is_alnum c) (take 1 (drop (length n) r))
               in Some (v @ nx, length n + length nx))
          | None \<Rightarrow>
              if prefix ''#'' r \<and> takeWhile is_digit (drop 1 r) \<noteq> [] then
                (let ds = takeWhile is_digit (drop 1 r)
                 in Some (codePointToSymbol he (digits_val 10 ds),
                          1 + length ds + semicolon_at (1 + length ds) r))
              else if (prefix ''#x'' r \<or> prefix ''#X'' r) \<and> takeWhile (\<lambda>c. hex_val c \<noteq> None) (drop 2 r) \<noteq> [] then
                (let hs = takeWhile (\<lambda>c. hex_val c \<noteq> None) (drop 2 r)
                 in Some (codePointToSymbol he (digits_val 16 hs),
                          2 + length hs + semicolon_at (2 + length hs) r))
              else if takeWhile is_alnum r \<noteq> [] then
                Some (CHR ''&'' # takeWhile is_alnum r, length (takeWhile is_alnum r))
              else None))"

fun he_go :: "he_tables \<Rightarrow> nat \<Rightarrow> string \<Rightarrow> string" where
  "he_go he k [] = []"
| "he_go he (Suc k) (c # cs) = he_go he k cs"
| "he_go he 0 (c # cs) =
     (if c = CHR ''&'' then
        (case he_match he cs of
           Some (v, n) \<Rightarrow> v @ he_go he n cs
         | None \<Rightarrow> c # he_go he 0 cs)
      else c # he_go he 0 cs)"

definition he_decode :: "he_tables \<Rightarrow> string \<Rightarrow> string" where
  "he_decode he s = he_go he 0 s"

text \<open>
  \<open>striptags(html)\<close> with no allowed tags and the empty replacement, modelled after the
  package's loop over the characters: its state, the tag buffer, the nesting depth of
  \<open><\<close> inside a tag and the quote character that is open, if any.
\<close>

datatype st_state = STATE_PLAINTEXT | STATE_HTML | STATE_COMMENT

fun striptags_internal :: "st_state \<Rightarrow> string \<Rightarrow> nat \<Rightarrow> char option \<Rightarrow> string \<Rightarrow> string" where
  "striptags_internal st buf depth q [] = []"
| "striptags_internal STATE_PLAINTEXT buf depth q (c # cs) =
     (if c = CHR ''<'' then striptags_internal STATE_HTML (buf @ [c]) depth q cs
      else c # striptags_internal STATE_PLAINTEXT buf depth q cs)"
| "striptags_internal STATE_HTML buf depth q (c # cs) =
     (if c = CHR ''<'' then
        (if q \<noteq> None then striptags_internal STATE_HTML buf depth q cs
         else striptags_internal STATE_HTML buf (depth + 1) q cs)
      else if c = CHR ''>'' then
        (if q \<noteq> None then striptags_internal STATE_HTML buf depth q cs
         else if depth \<noteq> 0 then striptags_internal STATE_HTML buf (depth - 1) q cs
         else striptags_internal STATE_PLAINTEXT [] depth None cs)
      else if c = CHR 0x22 \<or> c = CHR 0x27 then
        striptags_internal STATE_HTML (buf @ [c]) depth
          (if q = Some c then None else if q \<noteq> None then q else Some c) cs
      else if c = CHR ''-'' then
        striptags_internal (if buf = ''<!-'' then STATE_COMMENT else STATE_HTML) (buf @ [c]) depth q cs
      else if c = CHR '' '' \<or> c = CHR 0x0A then
        (if buf = ''<'' then ''< '' @ striptags_internal STATE_PLAINTEXT [] depth q cs
         else striptags_internal STATE_HTML (buf @ [c]) depth q cs)
      else striptags_internal STATE_HTML (buf @ [c]) depth q cs)"
| "striptags_internal STATE_COMMENT buf depth q (c # cs) =
     (if c = CHR ''>'' then
        striptags_internal (if suffix ''--'' buf then STATE_PLAINTEXT else STATE_COMMENT) [] depth q cs
      else striptags_internal STATE_COMMENT (buf @ [c]) depth q cs)"

definition striptags :: "string \<Rightarrow> string" where
  "striptags html = striptags_internal STATE_PLAINTEXT [] 0 None html"

section \<open>Parsing the transcript\<close>

text \<open>
  The callback of \<open>reduce\<close> and the chain that feeds it stand three times in the source,
  letter for letter (index.ts 115-149 and 204-238, the second file 92-126).
\<close>

definition reduce_line :: "he_tables \<Rightarrow> Subtitle list \<Rightarrow> string \<Rightarrow> Subtitle list" where
  "reduce_line he acc line =
     (case (startRegex_exec line, durRegex_exec line) of
        (Some st, Some du) \<Rightarrow>
          acc @ [\<lparr>start = st, dur = du, text' = striptags (he_decode he (htmlText line))\<rparr>]
      | _ \<Rightarrow> acc)"

definition xml_prolog :: string where
  \<comment> \<open>the literal \<open><?xml version="1.0" encoding="utf-8" ?><transcript>\<close>\<close>
  "xml_prolog =
     ''<?xml version='' @ CHR 0x22 # ''1.0'' @ CHR 0x22 # '' encoding='' @ CHR 0x22
       # ''utf-8'' @ CHR 0x22 # '' ?><transcript>''"

definition transcript_lines :: "string \<Rightarrow> string list" where
  "transcript_lines transcript =
     filter (\<lambda>line. line \<noteq> [] \<and> trim_truthy line)
       (str_split
          (replace_first (replace_first transcript xml_prolog) ''</transcript>'')
          ''</text>'')"

definition parseTranscript :: "he_tables \<Rightarrow> string \<Rightarrow> Subtitle list" where
  "parseTranscript he transcript = foldl (reduce_line he) [] (transcript_lines transcript)"

section \<open>Page retrieval (index.ts)\<close>

record Options =
  videoID :: string
  lang :: "string option"
  pageHtml :: "string option"
  proxy :: "(string \<Rightarrow> string) option"

text \<open>
  The network is a parameter: \<open>fetch\<close> receives the value it is called with and answers
  with the response text or fails. Every function that fetches returns the list of the
  requests it made, in order, beside its outcome.
\<close>

type_synonym net = "json \<Rightarrow> error + string"

definition pageUrl :: "string \<Rightarrow> string" where
  "pageUrl vid = ''https://m.youtube.com/watch?v='' @ vid"

definition requestUrl :: "Options \<Rightarrow> string" where
  \<comment> \<open>\<open>proxy?.(pageUrl) || pageUrl\<close>\<close>
  "requestUrl opts =
     (case proxy opts of
        None \<Rightarrow> pageUrl (videoID opts)
      | Some p \<Rightarrow> if p (pageUrl (videoID opts)) \<noteq> [] then p (pageUrl (videoID opts))
                  else pageUrl (videoID opts))"

definition getYouTubePageHTML :: "net \<Rightarrow> Options \<Rightarrow> json list \<times> (error + string)" where
  "getYouTubePageHTML fetch opts =
     (case pageHtml opts of
        Some (c # cs) \<Rightarrow> ([], Inr (c # cs))
      | _ \<Rightarrow>
          if requestUrl opts = [] then ([], Inl ProxyError)
          else ([JString (requestUrl opts)], fetch (JString (requestUrl opts))))"


section \<open>The entry points of index.ts\<close>

record VideoDetails =
  title :: string
  description :: string
  subtitles :: "Subtitle list"

text \<open>
  \<open>/<meta name="title" content="([^"]*|[^"]*[^&]quot;[^"]*)">/\<close> and its twin for the
  description. After the opening text, group 1 is the run up to the next double quote when
  \<open>">\<close> follows it. Failing that, the second alternative can only succeed with its
  \<open>[^&]\<close> on that double quote: the run, the quote, \<open>quot;\<close>, a second run, and then \<open>">\<close>.
\<close>

definition meta_content :: "string \<Rightarrow> string option" where
  "meta_content r =
     (let run1 = takeWhile (\<lambda>c. c \<noteq> CHR 0x22) r; r1 = dropWhile (\<lambda>c. c \<noteq> CHR 0x22) r in
      if prefix (CHR 0x22 # ''>'') r1 then Some run1
      else if prefix (CHR 0x22 # ''quot;'') r1 then
        (let run2 = takeWhile (\<lambda>c. c \<noteq> CHR 0x22) (drop 6 r1) in
         if prefix (CHR 0x22 # ''>'') (dropWhile (\<lambda>c. c \<noteq> CHR 0x22) (drop 6 r1))
         then Some (run1 @ CHR 0x22 # ''quot;'' @ run2) else None)
      else None)"

fun meta_exec :: "string \<Rightarrow> string \<Rightarrow> string option" where
  "meta_exec key [] = None"
| "meta_exec key (c # cs) =
     (if prefix key (c # cs) then
        (case meta_content (drop (length key) (c # cs)) of
           Some g \<Rightarrow> Some g
         | None \<Rightarrow> meta_exec key cs)
      else meta_exec key cs)"

definition titleMatch :: "string \<Rightarrow> string option" where
  "titleMatch data =
     meta_exec (''<meta name='' @ CHR 0x22 # ''title'' @ CHR 0x22 # '' content='' @ [CHR 0x22]) data"

definition descriptionMatch :: "string \<Rightarrow> string option" where
  "descriptionMatch data =
     meta_exec (''<meta name='' @ CHR 0x22 # ''description'' @ CHR 0x22 # '' content='' @ [CHR 0x22]) data"

definition lang_or_default :: "string option \<Rightarrow> string" where
  \<comment> \<open>the default of the destructuring \<open>lang = 'en'\<close>\<close>
  "lang_or_default l = (case l of None \<Rightarrow> ''en'' | Some x \<Rightarrow> x)"

text \<open>\<open>captionTracks.find\<close> exists on an array only.\<close>

definition find_subtitle :: "json \<Rightarrow> string \<Rightarrow> error + json option" where
  "find_subtitle captionTracks l =
     (case captionTracks of
        JArray tracks \<Rightarrow> selectTrack tracks l
      | _ \<Rightarrow> Inl TypeError)"

definition subtitle_baseUrl :: "json option \<Rightarrow> error + json option" where
  \<comment> \<open>\<open>subtitle?.baseUrl\<close>\<close>
  "subtitle_baseUrl subtitle =
     (case subtitle of None \<Rightarrow> Inr None | Some t \<Rightarrow> get_member t ''baseUrl'')"

definition getVideoDetails ::
  "net \<Rightarrow> he_tables \<Rightarrow> Options \<Rightarrow> json list \<times> (error + VideoDetails)" where
  "getVideoDetails fetch he options =
     (case getYouTubePageHTML fetch options of
        (reqs, Inl e) \<Rightarrow> (reqs, Inl e)
      | (reqs, Inr data) \<Rightarrow>
         (let title0 = (case titleMatch data of Some t \<Rightarrow> t | None \<Rightarrow> ''No title found'');
              description0 =
                (case descriptionMatch data of Some d \<Rightarrow> d | None \<Rightarrow> ''No description found'')
          in
          if \<not> str_includes data ''captionTracks'' then
            (reqs, Inr \<lparr>title = title0, description = description0, subtitles = []\<rparr>)
          else
            (case captionTracks_exec data of
               None \<Rightarrow> (reqs, Inr \<lparr>title = title0, description = description0, subtitles = []\<rparr>)
             | Some captionTracksJson \<Rightarrow>
                (case JSON_parse captionTracksJson of
                   Inl e \<Rightarrow> (reqs, Inl e)
                 | Inr captionTracks \<Rightarrow>
                    (case find_subtitle captionTracks (lang_or_default (lang options)) of
                       Inl e \<Rightarrow> (reqs, Inl e)
                     | Inr subtitle \<Rightarrow>
                        (case subtitle_baseUrl subtitle of
                           Inl e \<Rightarrow> (reqs, Inl e)
                         | Inr url \<Rightarrow>
                            if \<not> js_truthy url then
                              (reqs, Inr \<lparr>title = title0, description = description0, subtitles = []\<rparr>)
                            else
                              (case fetch (the url) of
                                 Inl e \<Rightarrow> (reqs @ [the url], Inl e)
                               | Inr transcript \<Rightarrow>
                                  (reqs @ [the url],
                                   Inr \<lparr>title = title0, description = description0,
                                        subtitles =
                                          foldl (reduce_line he) [] (transcript_lines transcript)\<rparr>))))))))"

definition getSubtitles ::
  "net \<Rightarrow> he_tables \<Rightarrow> Options \<Rightarrow> json list \<times> (error + Subtitle list)" where
  "getSubtitles fetch he options =
     (case getYouTubePageHTML fetch options of
        (reqs, Inl e) \<Rightarrow> (reqs, Inl e)
      | (reqs, Inr data) \<Rightarrow>
          if \<not> str_includes data ''captionTracks'' then (reqs, Inr [])
          else
            (case captionTracks_exec data of
               None \<Rightarrow> (reqs, Inr [])
             | Some captionTracksJson \<Rightarrow>
                (case JSON_parse captionTracksJson of
                   Inl e \<Rightarrow> (reqs, Inl e)
                 | Inr captionTracks \<Rightarrow>
                    (case find_subtitle captionTracks (lang_or_default (lang options)) of
                       Inl e \<Rightarrow> (reqs, Inl e)
                     | Inr subtitle \<Rightarrow>
                        (case subtitle_baseUrl subtitle of
                           Inl e \<Rightarrow> (reqs, Inl e)
                         | Inr url \<Rightarrow>
                            if \<not> js_truthy url then (reqs, Inr [])
                            else
                              (case fetch (the url) of
                                 Inl e \<Rightarrow> (reqs @ [the url], Inl e)
                               | Inr transcript \<Rightarrow>
                                  (reqs @ [the url],
                                   Inr (foldl (reduce_line he) [] (transcript_lines transcript)))))))))"

section \<open>The entry points of the second source file\<close>

text \<open>
  The second file has no proxy; it takes an optional download URL of the track, and the
  video identifier is optional as well.
\<close>

record Options' =
  videoID' :: "string option"
  lang' :: "string option"
  pageHtml' :: "string option"
  captionDownloadUrl :: "string option"

text \<open>
  \<open>/"captionTracks":\s*?((\[.*?\]),)/.exec(html)\<close>: white space may stand before the
  bracket, and the lazy run ends at the first \<open>]\<close> that a comma follows. The result is
  the text of group 2.
\<close>

fun captionTracks_exec' :: "string \<Rightarrow> string option" where
  "captionTracks_exec' [] = None"
| "captionTracks_exec' (c # cs) =
     (if prefix (CHR 0x22 # ''captionTracks'' @ CHR 0x22 # '':'') (c # cs) then
        (case dropWhile is_js_space (drop 16 (c # cs)) of
           [] \<Rightarrow> captionTracks_exec' cs
         | b # r \<Rightarrow>
             if b = CHR ''['' then
               (case lazy_until ''],'' r of
                  Some body \<Rightarrow> Some (''['' @ body @ '']'')
                | None \<Rightarrow> captionTracks_exec' cs)
             else captionTracks_exec' cs)
      else captionTracks_exec' cs)"

text \<open>The part of \<open>getCaptionDownloadUrl\<close> that works on the page, once there is one.\<close>

definition url_from_html :: "string \<Rightarrow> string \<Rightarrow> error + json option" where
  "url_from_html html l =
     (if \<not> str_includes html ''captionTracks'' then Inr None
      else
        (case captionTracks_exec' html of
           None \<Rightarrow> Inr None
         | Some captionTracksJson \<Rightarrow>
            (case JSON_parse captionTracksJson of
               Inl e \<Rightarrow> Inl e
             | Inr captionTracks \<Rightarrow>
                (case find_subtitle captionTracks l of
                   Inl e \<Rightarrow> Inl e
                 | Inr subtitle \<Rightarrow>
                    (case subtitle_baseUrl subtitle of
                       Inl e \<Rightarrow> Inl e
                     | Inr url \<Rightarrow> if \<not> js_truthy url then Inr None else Inr url)))))"

definition getCaptionDownloadUrl :: "net \<Rightarrow> Options' \<Rightarrow> json list \<times> (error + json option)" where
  "getCaptionDownloadUrl fetch options =
     (case captionDownloadUrl options of
        Some (u # us) \<Rightarrow> ([], Inr (Some (JString (u # us))))
      | _ \<Rightarrow>
         (case pageHtml' options of
            Some (c # cs) \<Rightarrow> ([], url_from_html (c # cs) (lang_or_default (lang' options)))
          | _ \<Rightarrow>
             (case videoID' options of
                Some (v # vs) \<Rightarrow>
                  (case fetch (JString (pageUrl (v # vs))) of
                     Inl e \<Rightarrow> ([JString (pageUrl (v # vs))], Inl e)
                   | Inr html \<Rightarrow>
                       ([JString (pageUrl (v # vs))],
                        url_from_html html (lang_or_default (lang' options))))
              | _ \<Rightarrow> ([], Inr None))))"

definition getSubtitlesDownloadUrl :: "net \<Rightarrow> Options' \<Rightarrow> json list \<times> (error + json option)" where
  "getSubtitlesDownloadUrl fetch options = getCaptionDownloadUrl fetch options"


section \<open>Instances for evaluation\<close>

text \<open>
  An instance of the tables of \<open>he\<close> that holds the five predefined entities of XML and
  decodes a numeric reference below 256 to its character; a network on which every
  request fails. Both serve to evaluate the functions at concrete inputs.
\<close>

definition xml_tables :: he_tables where
  "xml_tables =
     \<lparr>decodeMap = map_of [(''amp'', ''&''), (''lt'', ''<''), (''gt'', ''>''),
                          (''quot'', [CHR 0x22]), (''apos'', [CHR 0x27])],
      decodeMapLegacy = [(''quot'', [CHR 0x22]), (''amp'', ''&''), (''gt'', ''>''), (''lt'', ''<'')],
      codePointToSymbol = (\<lambda>n. if n < 256 then [char_of n] else [])\<rparr>"

definition offline :: net where
  "offline request = Inl FetchError"

text \<open>The spec's words for the number of an attribute: digits with an optional fractional part.\<close>

definition is_decimal_text :: "string \<Rightarrow> bool" where
  "is_decimal_text s \<longleftrightarrow>
     takeWhile is_digit s \<noteq> [] \<and>
     (case dropWhile is_digit s of
        [] \<Rightarrow> True
      | p # f \<Rightarrow> p = CHR ''.'' \<and> f \<noteq> [] \<and> list_all is_digit f)"

section \<open>Notions used in the statements\<close>

text \<open>A track whose \<open>vssId\<close> is exactly the given string.\<close>

definition has_vssId :: "string \<Rightarrow> json \<Rightarrow> bool" where
  "has_vssId s t \<longleftrightarrow> get_member t ''vssId'' = Inr (Some (JString s))"

text \<open>
  The test of the callback of \<open>reduce\<close>: both attribute patterns match somewhere in the
  line. The entry such a line yields holds the two captured texts and the cleaned text.
\<close>

definition both_patterns_match :: "string \<Rightarrow> bool" where
  "both_patterns_match l \<longleftrightarrow> startRegex_exec l \<noteq> None \<and> durRegex_exec l \<noteq> None"

definition entry_of :: "he_tables \<Rightarrow> string \<Rightarrow> Subtitle" where
  "entry_of he l =
     \<lparr>start = the (startRegex_exec l), dur = the (durRegex_exec l),
      text' = striptags (he_decode he (htmlText l))\<rparr>"

text \<open>
  The words of the claim on the parser: a segment carries an attribute when its opening
  tag, the text before the first \<open>>\<close>, has among its parts separated by white space one
  of the form \<open>name="..."\<close>; it is well formed when it carries both \<open>start\<close> and \<open>dur\<close>.
\<close>

fun words_go :: "string \<Rightarrow> string \<Rightarrow> string list" where
  "words_go cur [] = (if cur = [] then [] else [rev cur])"
| "words_go cur (c # cs) =
     (if is_js_space c then (if cur = [] then words_go [] cs else rev cur # words_go [] cs)
      else words_go (c # cur) cs)"

definition opening_tag :: "string \<Rightarrow> string" where
  "opening_tag seg = takeWhile (\<lambda>c. c \<noteq> CHR ''>'') seg"

definition carries_attribute :: "string \<Rightarrow> string \<Rightarrow> bool" where
  "carries_attribute name seg \<longleftrightarrow>
     list_ex (\<lambda>w. prefix (name @ CHR ''='' # [CHR 0x22]) w \<and> length name + 3 \<le> length w
                \<and> last w = CHR 0x22)
       (words_go [] (opening_tag seg))"

definition carries_timing :: "string \<Rightarrow> bool" where
  "carries_timing seg \<longleftrightarrow> carries_attribute ''start'' seg \<and> carries_attribute ''dur'' seg"

text \<open>
  What the code looks for instead, said without the matcher: somewhere in the segment
  stand the name, \<open>="\<close>, a non-empty run of digits and dots, and \<open>"\<close>.
\<close>

definition pattern_occurs :: "string \<Rightarrow> string \<Rightarrow> bool" where
  "pattern_occurs name l \<longleftrightarrow>
     (\<exists>pre v post. l = pre @ name @ CHR ''='' # CHR 0x22 # v @ CHR 0x22 # post
        \<and> v \<noteq> [] \<and> list_all is_num_char v)"

text \<open>The segment body of the entity and tag scenario.\<close>

definition escaped_body :: string where
  "escaped_body = ''&amp;lt;b&amp;gt;Hi&amp;amp;Bye&amp;lt;/b&amp;gt;''"

section \<open>Properties\<close>

subsection \<open>Page retrieval\<close>





text \<open>
  Claim C2. A request without page markup whose proxy function returns the empty string
  is expected to fail with the proxy error before any page is fetched. In the code the
  empty answer of the proxy is replaced by the watch-page address (\<open>|| pageUrl\<close>), so
  the test that throws never fires: the watch page is fetched, and the outcome is the
  answer of that fetch.
\<close>

theorem proxy_empty_url_is_fetched:
  "getYouTubePageHTML fetch \<lparr>videoID = v, lang = l, pageHtml = None, proxy = Some (\<lambda>u. [])\<rparr>
     = ([JString (''https://m.youtube.com/watch?v='' @ v)],
        fetch (JString (''https://m.youtube.com/watch?v='' @ v)))"
  by (simp add: getYouTubePageHTML_def requestUrl_def pageUrl_def)

subsection \<open>The two entry points of index.ts\<close>

text \<open>
  Claim C9. On the same network and the same request, \<open>getSubtitles\<close> and
  \<open>getVideoDetails\<close> make the same requests and fail with the same error or succeed
  together, and the subtitle sequence of the details is the one \<open>getSubtitles\<close> returns.
\<close>

theorem getSubtitles_is_subtitles_of_getVideoDetails:
  "getSubtitles fetch he opts =
     (fst (getVideoDetails fetch he opts),
      map_sum id subtitles (snd (getVideoDetails fetch he opts)))"
  unfolding getSubtitles_def getVideoDetails_def
  by (simp add: Let_def split: prod.splits sum.splits option.splits)






subsection \<open>Track selection\<close>

text \<open>
  Claim C1. With no exact match in the first two tiers, the third tier is expected to
  take a track only when its \<open>vssId\<close> contains the text \<open>.\<close> followed by the language. The
  code passes that text to \<open>match\<close>, where the dot stands for any character: asked for
  \<open>hr\<close>, it selects the track \<open>.chr\<close>, whose \<open>vssId\<close> does not contain \<open>.hr\<close>, and
  both files go on to that track's URL.
\<close>

theorem loose_tier_dot_matches_any_character:
  \<open>selectTrack [JObject [(''baseUrl'', JString ''u''), (''vssId'', JString ''.chr'')]] ''hr''
     = Inr (Some (JObject [(''baseUrl'', JString ''u''), (''vssId'', JString ''.chr'')]))
   \<and> \<not> str_includes ''.chr'' ''.hr''
   \<and> getSubtitles offline xml_tables
        \<lparr>videoID = ''v'', lang = Some ''hr'',
         pageHtml = Some ''"captionTracks":[{"baseUrl":"u","vssId":".chr"}]'', proxy = None\<rparr>
       = ([JString ''u''], Inl FetchError)
   \<and> getCaptionDownloadUrl offline
        \<lparr>videoID' = Some ''v'', lang' = Some ''hr'',
         pageHtml' = Some ''"captionTracks":[{"baseUrl":"u","vssId":".chr"}],'',
         captionDownloadUrl = None\<rparr>
       = ([], Inr (Some (JString ''u'')))\<close>
  by code_simp

lemma js_find_tier_exact:
  "JNull \<notin> set tracks \<Longrightarrow> js_find (tier_exact s) tracks = Inr (find (has_vssId s) tracks)"
proof (induction tracks)
  case Nil
  then show ?case by simp
next
  case (Cons t ts)
  then have "t \<noteq> JNull" by auto
  then have "tier_exact s t = Inr (has_vssId s t)"
    by (cases t) (auto simp: tier_exact_def has_vssId_def get_member_def)
  with Cons show ?case by simp
qed

text \<open>
  Claim C7. On a sequence of tracks (no element is \<open>null\<close>) the selection is the first
  track, in the order of the sequence, whose \<open>vssId\<close> is \<open>.\<close> followed by the language;
  failing that, the first whose \<open>vssId\<close> is \<open>a.\<close> followed by the language; failing
  that, what the third tier finds. Being a function of the sequence and the language, the
  result is determined by them.
\<close>

theorem selectTrack_tier_order:
  "JNull \<notin> set tracks \<Longrightarrow>
   selectTrack tracks l =
     (case find (has_vssId (''.'' @ l)) tracks of
        Some t \<Rightarrow> Inr (Some t)
      | None \<Rightarrow>
          (case find (has_vssId (''a.'' @ l)) tracks of
             Some t \<Rightarrow> Inr (Some t)
           | None \<Rightarrow> js_find (tier_loose l) tracks))"
  by (simp add: selectTrack_def js_find_tier_exact split: option.splits)

text \<open>The scenario of the claim: tracks \<open>a.en\<close> and \<open>.fr\<close>, language \<open>en\<close>.\<close>

theorem selectTrack_tier_order_witness:
  "JNull \<notin> set [JObject [(''baseUrl'', JString ''u1''), (''vssId'', JString ''a.en'')],
                  JObject [(''baseUrl'', JString ''u2''), (''vssId'', JString ''.fr'')]]
   \<and> selectTrack [JObject [(''baseUrl'', JString ''u1''), (''vssId'', JString ''a.en'')],
                  JObject [(''baseUrl'', JString ''u2''), (''vssId'', JString ''.fr'')]] ''en''
       = Inr (Some (JObject [(''baseUrl'', JString ''u1''), (''vssId'', JString ''a.en'')]))"
  using selectTrack_tier_order
    [of "[JObject [(''baseUrl'', JString ''u1''), (''vssId'', JString ''a.en'')],
          JObject [(''baseUrl'', JString ''u2''), (''vssId'', JString ''.fr'')]]" "''en''"]
  by (simp add: has_vssId_def get_member_def)

subsection \<open>Manifest extraction\<close>

text \<open>
  Claim C3, as stated: markup that holds the marker and a corrupted array yields an
  empty result and never an exception. It fails on the page \<open>"captionTracks":[x]\<close>: the
  pattern matches, \<open>JSON.parse\<close> rejects \<open>[x]\<close>, and nothing catches the \<open>SyntaxError\<close>.
\<close>

theorem invalid_json_manifest_throws:
  \<open>str_includes (CHR 0x22 # ''captionTracks'' @ CHR 0x22 # '':[x]'') ''captionTracks''
   \<and> captionTracks_exec (CHR 0x22 # ''captionTracks'' @ CHR 0x22 # '':[x]'') = Some ''[x]''
   \<and> JSON_parse ''[x]'' = Inl SyntaxError
   \<and> getSubtitles offline xml_tables
        \<lparr>videoID = ''abc'', lang = None,
         pageHtml = Some (CHR 0x22 # ''captionTracks'' @ CHR 0x22 # '':[x]''), proxy = None\<rparr>
       = ([], Inl SyntaxError)\<close>
  by code_simp

text \<open>
  Claim C3, amended. On a page that holds the marker: when the pattern finds no array,
  both entry points of index.ts return an empty subtitle sequence and make no further
  request, and the second file's extraction returns no URL; when the pattern finds a text
  that \<open>JSON.parse\<close> rejects, the error of \<open>JSON.parse\<close> is the outcome.
\<close>

theorem corrupted_manifest:
  assumes "getYouTubePageHTML fetch opts = (reqs, Inr data)"
    and "str_includes data ''captionTracks''"
  shows "(captionTracks_exec data = None \<longrightarrow>
            getSubtitles fetch he opts = (reqs, Inr [])
          \<and> fst (getVideoDetails fetch he opts) = reqs
          \<and> map_sum id subtitles (snd (getVideoDetails fetch he opts)) = Inr [])
       \<and> (\<forall>js e. captionTracks_exec data = Some js \<and> JSON_parse js = Inl e \<longrightarrow>
            getSubtitles fetch he opts = (reqs, Inl e)
          \<and> getVideoDetails fetch he opts = (reqs, Inl e))
       \<and> (captionTracks_exec' data = None \<longrightarrow> url_from_html data l = Inr None)
       \<and> (\<forall>js e. captionTracks_exec' data = Some js \<and> JSON_parse js = Inl e \<longrightarrow>
            url_from_html data l = Inl e)"
  using assms by (simp add: getSubtitles_def getVideoDetails_def url_from_html_def Let_def)

theorem corrupted_manifest_witness:
  \<open>getYouTubePageHTML offline
       \<lparr>videoID = ''abc'', lang = None, pageHtml = Some ''captionTracks'', proxy = None\<rparr>
     = ([], Inr ''captionTracks'')
   \<and> str_includes ''captionTracks'' ''captionTracks''
   \<and> captionTracks_exec ''captionTracks'' = None
   \<and> captionTracks_exec' ''captionTracks'' = None
   \<and> getSubtitles offline xml_tables
        \<lparr>videoID = ''abc'', lang = None, pageHtml = Some ''captionTracks'', proxy = None\<rparr>
       = ([], Inr [])
   \<and> url_from_html ''captionTracks'' ''en'' = Inr None
   \<and> getYouTubePageHTML offline
        \<lparr>videoID = ''abc'', lang = None, pageHtml = Some ''"captionTracks":[x],'', proxy = None\<rparr>
       = ([], Inr ''"captionTracks":[x],'')
   \<and> str_includes ''"captionTracks":[x],'' ''captionTracks''
   \<and> captionTracks_exec ''"captionTracks":[x],'' = Some ''[x]''
   \<and> captionTracks_exec' ''"captionTracks":[x],'' = Some ''[x]''
   \<and> JSON_parse ''[x]'' = Inl SyntaxError
   \<and> getVideoDetails offline xml_tables
        \<lparr>videoID = ''abc'', lang = None, pageHtml = Some ''"captionTracks":[x],'', proxy = None\<rparr>
       = ([], Inl SyntaxError)
   \<and> url_from_html ''"captionTracks":[x],'' ''en'' = Inl SyntaxError\<close>
proof -
  let ?o1 = "\<lparr>videoID = ''abc'', lang = None, pageHtml = Some ''captionTracks'', proxy = None\<rparr>"
  let ?d2 = \<open>''"captionTracks":[x],''\<close>
  let ?o2 = "\<lparr>videoID = ''abc'', lang = None, pageHtml = Some ?d2, proxy = None\<rparr>"
  have p1: "getYouTubePageHTML offline ?o1 = ([], Inr ''captionTracks'')" by code_simp
  have m1: "str_includes ''captionTracks'' ''captionTracks''" by code_simp
  have n1: "captionTracks_exec ''captionTracks'' = None" by code_simp
  have n1': "captionTracks_exec' ''captionTracks'' = None" by code_simp
  have p2: "getYouTubePageHTML offline ?o2 = ([], Inr ?d2)" by code_simp
  have m2: "str_includes ?d2 ''captionTracks''" by code_simp
  have n2: "captionTracks_exec ?d2 = Some ''[x]''" by code_simp
  have n2': "captionTracks_exec' ?d2 = Some ''[x]''" by code_simp
  have j: "JSON_parse ''[x]'' = Inl SyntaxError" by code_simp
  have r1: "getSubtitles offline xml_tables ?o1 = ([], Inr [])"
    using corrupted_manifest [OF p1 m1, of xml_tables "''en''"] n1 by simp
  have u1: "url_from_html ''captionTracks'' ''en'' = Inr None"
    using corrupted_manifest [OF p1 m1, of xml_tables "''en''"] n1' by simp
  have r2: "getVideoDetails offline xml_tables ?o2 = ([], Inl SyntaxError)"
    using corrupted_manifest [OF p2 m2, of xml_tables "''en''"] n2 j by simp
  have u2: "url_from_html ?d2 ''en'' = Inl SyntaxError"
    using corrupted_manifest [OF p2 m2, of xml_tables "''en''"] n2' j by simp
  show ?thesis using p1 m1 n1 n1' r1 u1 p2 m2 n2 n2' j r2 u2 by simp
qed

subsection \<open>The transcript\<close>

lemma reduce_line_cases:
  "reduce_line he acc l = (if both_patterns_match l then acc @ [entry_of he l] else acc)"
  by (auto simp: reduce_line_def both_patterns_match_def entry_of_def split: option.splits)

lemma foldl_reduce_line:
  "foldl (reduce_line he) acc ls = acc @ map (entry_of he) (filter both_patterns_match ls)"
  by (induction ls arbitrary: acc) (simp_all add: reduce_line_cases)

lemma parseTranscript_lines:
  "parseTranscript he doc = map (entry_of he) (filter both_patterns_match (transcript_lines doc))"
  by (simp add: parseTranscript_def foldl_reduce_line)

text \<open>
  Splitting at a separator whose first character occurs nowhere else in it: pieces that do
  not contain the separator come back as they were joined.
\<close>

lemma split_go_skip: "split_go sep (length xs) cur (xs @ rest) = split_go sep 0 cur rest"
  by (induction xs) simp_all

lemma no_straddle:
  assumes "c \<notin> set sep'" and "\<not> prefix (c # sep') s" and "s \<noteq> []"
  shows "\<not> prefix (c # sep') (s @ (c # sep') @ rest)"
proof
  assume "prefix (c # sep') (s @ (c # sep') @ rest)"
  then have "prefix (c # sep') s \<or> (\<exists>us. c # sep' = s @ us \<and> prefix us ((c # sep') @ rest))"
    by (rule iffD1 [OF prefix_append])
  with assms(2) obtain us where us: "c # sep' = s @ us" "prefix us ((c # sep') @ rest)"
    by blast
  from \<open>s \<noteq> []\<close> obtain x s' where s: "s = x # s'" by (cases s) auto
  with us have sep': "sep' = s' @ us" by simp
  show False
  proof (cases us)
    case Nil
    with us assms(2) show False by simp
  next
    case (Cons u us')
    with us(2) have "u = c" by simp
    with Cons sep' assms(1) show False by simp
  qed
qed

lemma split_go_piece:
  assumes "c \<notin> set sep'" and "\<not> str_includes s (c # sep')"
  shows "split_go (c # sep') 0 cur (s @ (c # sep') @ rest)
           = (rev cur @ s) # split_go (c # sep') 0 [] rest"
  using assms(2)
proof (induction s arbitrary: cur)
  case Nil
  show ?case using split_go_skip [of "c # sep'" sep' "[]" rest] by simp
next
  case (Cons x s)
  then have np: "\<not> prefix (c # sep') (x # s)" and ni: "\<not> str_includes s (c # sep')"
    by simp_all
  have "\<not> prefix (c # sep') ((x # s) @ (c # sep') @ rest)"
    using no_straddle [OF assms(1) np] by simp
  then have "split_go (c # sep') 0 cur ((x # s) @ (c # sep') @ rest)
               = split_go (c # sep') 0 (x # cur) (s @ (c # sep') @ rest)"
    by auto
  with Cons.IH [OF ni, of "x # cur"] show ?case by simp
qed

lemma split_go_tail: "\<not> str_includes t sep \<Longrightarrow> split_go sep 0 cur t = [rev cur @ t]"
  by (induction t arbitrary: cur) auto

lemma split_go_segments:
  assumes "c \<notin> set sep'" and "list_all (\<lambda>s. \<not> str_includes s (c # sep')) (segs @ [rest])"
  shows "split_go (c # sep') 0 [] (concat (map (\<lambda>s. s @ (c # sep')) segs) @ rest)
           = segs @ [rest]"
  using assms(2)
proof (induction segs)
  case Nil
  then show ?case using split_go_tail [of rest "c # sep'" "[]"] by simp
next
  case (Cons s segs)
  then show ?case
    using split_go_piece
      [OF assms(1), of s "[]" "concat (map (\<lambda>s. s @ (c # sep')) segs) @ rest"]
    by simp
qed

lemma attr_exec_key: "attr_exec key l = Some v \<Longrightarrow> set key \<subseteq> set l"
proof (induction l)
  case Nil
  then show ?case by simp
next
  case (Cons c cs)
  show ?case
  proof (cases "prefix key (c # cs)")
    case True
    then show ?thesis by (rule set_mono_prefix)
  next
    case False
    with Cons show ?thesis by (auto split: if_splits)
  qed
qed

lemma both_patterns_not_blank: "both_patterns_match l \<Longrightarrow> l \<noteq> [] \<and> trim_truthy l"
proof -
  assume "both_patterns_match l"
  then obtain v where "attr_exec (''start='' @ [CHR 0x22]) l = Some v"
    by (auto simp: both_patterns_match_def startRegex_exec_def)
  then have "set (''start='' @ [CHR 0x22]) \<subseteq> set l" by (rule attr_exec_key)
  then have "CHR ''s'' \<in> set l" by simp
  moreover have "\<not> is_js_space (CHR ''s'')" by (simp add: is_js_space_def)
  ultimately have "l \<noteq> []" and "\<exists>c \<in> set l. \<not> is_js_space c" by auto
  then show ?thesis by (simp add: trim_truthy_def list_ex_iff)
qed

lemma parseTranscript_segments:
  assumes "replace_first (replace_first doc xml_prolog) ''</transcript>''
             = concat (map (\<lambda>s. s @ ''</text>'') segs) @ rest"
    and "list_all (\<lambda>s. \<not> str_includes s ''</text>'') (segs @ [rest])"
  shows "parseTranscript he doc = map (entry_of he) (filter both_patterns_match (segs @ [rest]))"
proof -
  have "str_split (concat (map (\<lambda>s. s @ ''</text>'') segs) @ rest) ''</text>'' = segs @ [rest]"
    unfolding str_split_def
    using split_go_segments [of "CHR ''<''" "''/text>''" segs rest] assms(2)
    by simp
  then have "transcript_lines doc = filter (\<lambda>l. l \<noteq> [] \<and> trim_truthy l) (segs @ [rest])"
    by (simp add: transcript_lines_def assms(1))
  then have "filter both_patterns_match (transcript_lines doc)
               = filter both_patterns_match (segs @ [rest])"
    using both_patterns_not_blank by (auto intro: filter_cong)
  then show ?thesis by (simp add: parseTranscript_lines)
qed

lemma attr_exec_chars: "attr_exec key line = Some v \<Longrightarrow> v \<noteq> [] \<and> list_all is_num_char v"
proof (induction line)
  case Nil
  then show ?case by simp
next
  case (Cons c cs)
  show ?case
  proof (cases "prefix key (c # cs) \<and> takeWhile is_num_char (drop (length key) (c # cs)) \<noteq> []
         \<and> prefix [CHR 0x22] (dropWhile is_num_char (drop (length key) (c # cs)))")
    case True
    with Cons.prems have "v = takeWhile is_num_char (drop (length key) (c # cs))" by simp
    with True show ?thesis by (auto simp: list_all_iff dest: set_takeWhileD)
  next
    case False
    with Cons.prems have "attr_exec key cs = Some v" by (simp split: if_splits)
    then show ?thesis by (rule Cons.IH)
  qed
qed

text \<open>The matcher finds a value exactly when the pattern occurs, and the value is one that occurs.\<close>

lemma attr_exec_occurs:
  "attr_exec key l = Some v \<Longrightarrow> \<exists>pre post. l = pre @ key @ v @ CHR 0x22 # post"
proof (induction l)
  case Nil
  then show ?case by simp
next
  case (Cons c cs)
  let ?r = "drop (length key) (c # cs)"
  show ?case
  proof (cases "prefix key (c # cs) \<and> takeWhile is_num_char ?r \<noteq> []
         \<and> prefix [CHR 0x22] (dropWhile is_num_char ?r)")
    case True
    with Cons.prems have v: "v = takeWhile is_num_char ?r" by simp
    from True obtain post where post: "dropWhile is_num_char ?r = CHR 0x22 # post"
      by (auto simp: prefix_def)
    from True have "c # cs = key @ ?r" by (auto simp: prefix_def)
    moreover have "?r = v @ CHR 0x22 # post"
      using takeWhile_dropWhile_id [of is_num_char ?r] v post by simp
    ultimately have "c # cs = [] @ key @ v @ CHR 0x22 # post" by simp
    then show ?thesis by blast
  next
    case False
    with Cons.prems have "attr_exec key cs = Some v" by (simp split: if_splits)
    then obtain pre post where "cs = pre @ key @ v @ CHR 0x22 # post"
      using Cons.IH by blast
    then have "c # cs = (c # pre) @ key @ v @ CHR 0x22 # post" by simp
    then show ?thesis by blast
  qed
qed

lemma occurs_attr_exec:
  assumes "v \<noteq> []" and "list_all is_num_char v"
  shows "attr_exec key (pre @ key @ v @ CHR 0x22 # post) \<noteq> None"
proof (induction pre)
  case Nil
  have nq: "\<not> is_num_char (CHR 0x22)" by (simp add: is_num_char_def is_digit_def)
  have tw: "takeWhile is_num_char (v @ CHR 0x22 # post) = v"
    using assms(2) nq by (simp add: takeWhile_append2 list_all_iff)
  have dw: "dropWhile is_num_char (v @ CHR 0x22 # post) = CHR 0x22 # post"
    using assms(2) nq by (simp add: dropWhile_append2 list_all_iff)
  obtain c cs where l: "key @ v @ CHR 0x22 # post = c # cs"
    by (cases "key @ v @ CHR 0x22 # post") auto
  have pk: "prefix key (c # cs)" using l by (metis prefixI)
  have dr: "drop (length key) (c # cs) = v @ CHR 0x22 # post"
    using l by (metis append_eq_conv_conj)
  have "attr_exec key (c # cs) = Some v"
    using pk dr tw dw assms(1) by simp
  then show ?case by (simp add: l)
next
  case (Cons x pre)
  then show ?case by simp
qed

lemma pattern_occurs_iff: "pattern_occurs name l \<longleftrightarrow> attr_exec (name @ CHR ''='' # [CHR 0x22]) l \<noteq> None"
proof
  assume "pattern_occurs name l"
  then obtain pre v post where
    "l = pre @ (name @ CHR ''='' # [CHR 0x22]) @ v @ CHR 0x22 # post" "v \<noteq> []" "list_all is_num_char v"
    by (auto simp: pattern_occurs_def)
  then show "attr_exec (name @ CHR ''='' # [CHR 0x22]) l \<noteq> None"
    using occurs_attr_exec by blast
next
  assume "attr_exec (name @ CHR ''='' # [CHR 0x22]) l \<noteq> None"
  then obtain v where v: "attr_exec (name @ CHR ''='' # [CHR 0x22]) l = Some v" by auto
  then obtain pre post where "l = pre @ (name @ CHR ''='' # [CHR 0x22]) @ v @ CHR 0x22 # post"
    using attr_exec_occurs by blast
  moreover have "v \<noteq> [] \<and> list_all is_num_char v" using v by (rule attr_exec_chars)
  ultimately show "pattern_occurs name l" by (auto simp: pattern_occurs_def)
qed

lemma both_patterns_match_iff:
  "both_patterns_match l \<longleftrightarrow> pattern_occurs ''start'' l \<and> pattern_occurs ''dur'' l"
  by (simp add: both_patterns_match_def startRegex_exec_def durRegex_exec_def pattern_occurs_iff)

text \<open>
  Claim C4, as stated: a document of \<open>N\<close> segments that carry both attributes and \<open>M\<close>
  that miss one yields \<open>N\<close> entries. It fails on a document of one segment whose tag has
  no \<open>start\<close> attribute and whose body says \<open>start="3"\<close>, and on one whose tag has
  \<open>enddur\<close> and no \<open>dur\<close>: no segment is well formed, and each document yields an entry.
\<close>

theorem pattern_found_outside_attribute:
  \<open>\<not> carries_attribute ''start'' ''<text dur="2.5">he said start="3" twice''
   \<and> length (filter carries_timing [''<text dur="2.5">he said start="3" twice'']) = 0
   \<and> parseTranscript xml_tables ''<text dur="2.5">he said start="3" twice</text>''
       = [\<lparr>start = ''3'', dur = ''2.5'', text' = ''he said start="3" twice''\<rparr>]
   \<and> \<not> carries_attribute ''dur'' ''<text start="1.0" enddur="9">a''
   \<and> length (filter carries_timing [''<text start="1.0" enddur="9">a'']) = 0
   \<and> parseTranscript xml_tables ''<text start="1.0" enddur="9">a</text>''
       = [\<lparr>start = ''1.0'', dur = ''9'', text' = ''a''\<rparr>]\<close>
  by code_simp

text \<open>
  Claim C4, amended. Take a document that, once its wrapper is stripped, is a sequence of
  segments, each closed by \<open></text>\<close>, and whatever follows the last \<open></text>\<close>, none of
  these pieces containing \<open></text>\<close>. The parser returns one entry for each piece in
  which both \<open>start="\<close> and \<open>dur="\<close>, each with a non-empty run of digits and dots and a
  closing quote, occur anywhere (in the tag or in the body), in the order of the document,
  and none for any other piece; the two values of an entry are values that so occur in a
  piece. The parser is a total function, so no piece makes it fail.
\<close>

theorem parseTranscript_pattern_segments:
  assumes "replace_first (replace_first doc xml_prolog) ''</transcript>''
             = concat (map (\<lambda>s. s @ ''</text>'') segs) @ rest"
    and "list_all (\<lambda>s. \<not> str_includes s ''</text>'') (segs @ [rest])"
  shows "parseTranscript he doc
           = map (entry_of he)
               (filter (\<lambda>s. pattern_occurs ''start'' s \<and> pattern_occurs ''dur'' s) (segs @ [rest]))
       \<and> length (parseTranscript he doc)
           = length (filter (\<lambda>s. pattern_occurs ''start'' s \<and> pattern_occurs ''dur'' s)
               (segs @ [rest]))
       \<and> length (parseTranscript he doc)
           + length (filter (\<lambda>s. \<not> (pattern_occurs ''start'' s \<and> pattern_occurs ''dur'' s))
               (segs @ [rest]))
           = length (segs @ [rest])
       \<and> (\<forall>e \<in> set (parseTranscript he doc). \<exists>s \<in> set (segs @ [rest]).
             (\<exists>pre post. s = pre @ ''start'' @ CHR ''='' # CHR 0x22 # start e @ CHR 0x22 # post)
           \<and> (\<exists>pre post. s = pre @ ''dur'' @ CHR ''='' # CHR 0x22 # dur e @ CHR 0x22 # post))"
proof -
  let ?P = "\<lambda>s. pattern_occurs ''start'' s \<and> pattern_occurs ''dur'' s"
  have P: "both_patterns_match = ?P" by (rule ext) (rule both_patterns_match_iff)
  have a: "parseTranscript he doc = map (entry_of he) (filter ?P (segs @ [rest]))"
    using parseTranscript_segments [OF assms, of he] by (simp only: P)
  have b: "length (filter ?P (segs @ [rest])) + length (filter (\<lambda>s. \<not> ?P s) (segs @ [rest]))
             = length (segs @ [rest])"
    by (rule sum_length_filter_compl)
  have c: "\<exists>s \<in> set (segs @ [rest]).
             (\<exists>pre post. s = pre @ ''start'' @ CHR ''='' # CHR 0x22 # start e @ CHR 0x22 # post)
           \<and> (\<exists>pre post. s = pre @ ''dur'' @ CHR ''='' # CHR 0x22 # dur e @ CHR 0x22 # post)"
    if "e \<in> set (parseTranscript he doc)" for e
  proof -
    from that have "e \<in> entry_of he ` set (filter ?P (segs @ [rest]))"
      unfolding a by (simp only: set_map)
    then obtain s where s0: "s \<in> set (filter ?P (segs @ [rest]))" and se: "e = entry_of he s"
      by blast
    from s0 have "s \<in> set (segs @ [rest]) \<and> ?P s" unfolding set_filter by blast
    with se have s: "s \<in> set (segs @ [rest])" "both_patterns_match s" "e = entry_of he s"
      by (simp_all add: both_patterns_match_iff)
    then obtain st du where m: "startRegex_exec s = Some st" "durRegex_exec s = Some du"
      by (auto simp: both_patterns_match_def)
    have v: "start e = st" "dur e = du" using s(3) m by (simp_all add: entry_of_def)
    have A: "\<exists>pre post. s = pre @ ''start'' @ CHR ''='' # CHR 0x22 # start e @ CHR 0x22 # post"
      using attr_exec_occurs [of "''start'' @ CHR ''='' # [CHR 0x22]" s st] m(1) v(1)
      by (simp add: startRegex_exec_def)
    have B: "\<exists>pre post. s = pre @ ''dur'' @ CHR ''='' # CHR 0x22 # dur e @ CHR 0x22 # post"
      using attr_exec_occurs [of "''dur'' @ CHR ''='' # [CHR 0x22]" s du] m(2) v(2)
      by (simp add: durRegex_exec_def)
    show ?thesis
    proof (rule bexI [of _ s])
      show "(\<exists>pre post. s = pre @ ''start'' @ CHR ''='' # CHR 0x22 # start e @ CHR 0x22 # post)
          \<and> (\<exists>pre post. s = pre @ ''dur'' @ CHR ''='' # CHR 0x22 # dur e @ CHR 0x22 # post)"
        using A B by (rule conjI)
      show "s \<in> set (segs @ [rest])" by (rule s(1))
    qed
  qed
  have n: "length (parseTranscript he doc) = length (filter ?P (segs @ [rest]))"
    unfolding a by (rule length_map)
  show ?thesis
  proof (intro conjI ballI)
    show "parseTranscript he doc = map (entry_of he) (filter ?P (segs @ [rest]))" by (rule a)
    show "length (parseTranscript he doc) = length (filter ?P (segs @ [rest]))" by (rule n)
    show "length (parseTranscript he doc) + length (filter (\<lambda>s. \<not> ?P s) (segs @ [rest]))
            = length (segs @ [rest])"
      unfolding n by (rule b)
    fix e assume "e \<in> set (parseTranscript he doc)"
    then show "\<exists>s \<in> set (segs @ [rest]).
             (\<exists>pre post. s = pre @ ''start'' @ CHR ''='' # CHR 0x22 # start e @ CHR 0x22 # post)
           \<and> (\<exists>pre post. s = pre @ ''dur'' @ CHR ''='' # CHR 0x22 # dur e @ CHR 0x22 # post)"
      by (rule c)
  qed
qed

text \<open>
  A wrapped document of two segments, the second without \<open>dur\<close>, and nothing after the
  last \<open></text>\<close>: one entry.
\<close>

theorem parseTranscript_pattern_segments_witness:
  \<open>replace_first
      (replace_first
         (xml_prolog @ ''<text start="1.0" dur="2.5">Hello &amp;amp; world</text><text start="3.0">broken</text></transcript>'')
         xml_prolog)
      ''</transcript>''
     = concat (map (\<lambda>s. s @ ''</text>'')
         [''<text start="1.0" dur="2.5">Hello &amp;amp; world'', ''<text start="3.0">broken''])
       @ []
   \<and> list_all (\<lambda>s. \<not> str_includes s ''</text>'')
         ([''<text start="1.0" dur="2.5">Hello &amp;amp; world'', ''<text start="3.0">broken''] @ [[]])
   \<and> parseTranscript xml_tables
         (xml_prolog @ ''<text start="1.0" dur="2.5">Hello &amp;amp; world</text><text start="3.0">broken</text></transcript>'')
       = [\<lparr>start = ''1.0'', dur = ''2.5'', text' = ''Hello & world''\<rparr>]
   \<and> \<lparr>start = ''1.0'', dur = ''2.5'', text' = ''Hello & world''\<rparr>
       \<in> set (parseTranscript xml_tables
         (xml_prolog @ ''<text start="1.0" dur="2.5">Hello &amp;amp; world</text><text start="3.0">broken</text></transcript>''))\<close>
proof -
  let ?doc = \<open>xml_prolog @ ''<text start="1.0" dur="2.5">Hello &amp;amp; world</text><text start="3.0">broken</text></transcript>''\<close>
  let ?segs = \<open>[''<text start="1.0" dur="2.5">Hello &amp;amp; world'', ''<text start="3.0">broken'']\<close>
  let ?P = "\<lambda>s. pattern_occurs ''start'' s \<and> pattern_occurs ''dur'' s"
  have P: "both_patterns_match = ?P" by (rule ext) (rule both_patterns_match_iff)
  have h1: "replace_first (replace_first ?doc xml_prolog) ''</transcript>''
              = concat (map (\<lambda>s. s @ ''</text>'') ?segs) @ []"
    by code_simp
  have h2: "list_all (\<lambda>s. \<not> str_includes s ''</text>'') (?segs @ [[]])" by code_simp
  have \<open>filter both_patterns_match (?segs @ [[]])
          = [''<text start="1.0" dur="2.5">Hello &amp;amp; world'']\<close>
    by code_simp
  then have f: \<open>filter ?P (?segs @ [[]])
                  = [''<text start="1.0" dur="2.5">Hello &amp;amp; world'']\<close>
    unfolding P .
  have e: \<open>entry_of xml_tables ''<text start="1.0" dur="2.5">Hello &amp;amp; world''
             = \<lparr>start = ''1.0'', dur = ''2.5'', text' = ''Hello & world''\<rparr>\<close>
    by code_simp
  have "parseTranscript xml_tables ?doc = map (entry_of xml_tables) (filter ?P (?segs @ [[]]))"
    using parseTranscript_pattern_segments [OF h1 h2, of xml_tables] by blast
  then have p: "parseTranscript xml_tables ?doc
                  = [\<lparr>start = ''1.0'', dur = ''2.5'', text' = ''Hello & world''\<rparr>]"
    by (simp only: f e list.map)
  show ?thesis using h1 h2 p by simp
qed

text \<open>
  Claim C5. The text of an entry is expected to keep everything after the first \<open>>\<close> of
  the candidate. The pattern \<open><text.+>\<close> is greedy and ends at the last \<open>>\<close> of the line:
  a body with markup of its own loses everything before the end of its last tag.
\<close>

theorem text_open_removal_is_greedy:
  \<open>parseTranscript he ''<text start="1" dur="2">Hello <i>big</i> world</text>''
     = [\<lparr>start = ''1'', dur = ''2'', text' = '' world''\<rparr>]\<close>
  by code_simp

text \<open>
  The opening tag alone is removed when no \<open>>\<close> follows it: the tag is \<open><text\<close>, some
  attribute text without \<open>>\<close> and line terminators, and \<open>>\<close>.
\<close>

lemma greedy_gt_tag:
  assumes "attrs \<noteq> []" and "CHR ''>'' \<notin> set attrs" and "\<not> list_ex is_line_terminator attrs"
    and "CHR ''>'' \<notin> set body"
  shows "greedy_gt (attrs @ CHR ''>'' # body) = Some (Suc (length attrs))"
proof -
  let ?t = "takeWhile (\<lambda>c. \<not> is_line_terminator c) body"
  have nl: "\<not> is_line_terminator (CHR ''>'')" by (simp add: is_line_terminator_def)
  have run: "takeWhile (\<lambda>c. \<not> is_line_terminator c) (attrs @ CHR ''>'' # body)
               = attrs @ CHR ''>'' # ?t"
    using assms(3) nl by (simp add: takeWhile_append2 list_ex_iff)
  have mem: "CHR ''>'' \<in> set (tl (attrs @ CHR ''>'' # ?t))"
    using assms(1) by (cases attrs) auto
  have nt: "CHR ''>'' \<notin> set ?t" using assms(4) by (auto dest: set_takeWhileD)
  have "takeWhile (\<lambda>c. c \<noteq> CHR ''>'') (rev ?t @ CHR ''>'' # rev attrs)
          = rev ?t @ takeWhile (\<lambda>c. c \<noteq> CHR ''>'') (CHR ''>'' # rev attrs)"
    by (rule takeWhile_append2) (use nt in auto)
  then have "takeWhile (\<lambda>c. c \<noteq> CHR ''>'') (rev (attrs @ CHR ''>'' # ?t)) = rev ?t"
    by simp
  then show ?thesis
    unfolding greedy_gt_def Let_def run using mem by simp
qed

lemma remove_text_open_tag:
  assumes "attrs \<noteq> []" and "CHR ''>'' \<notin> set attrs" and "\<not> list_ex is_line_terminator attrs"
    and "CHR ''>'' \<notin> set body"
  shows "remove_text_open (''<text'' @ attrs @ CHR ''>'' # body) = body"
  using greedy_gt_tag [OF assms] by simp

lemma str_includes_absent_head: "c \<notin> set xs \<Longrightarrow> \<not> str_includes xs (c # p)"
  by (induction xs) auto

lemma he_decode_escaped_markup:
  assumes "decodeMap he ''lt'' = Some ''<''" and "decodeMap he ''gt'' = Some ''>''"
    and "decodeMap he ''amp'' = Some ''&''"
  shows "he_decode he ''&lt;b&gt;Hi&amp;Bye&lt;/b&gt;'' = ''<b>Hi&Bye</b>''"
  using assms by (simp add: he_decode_def he_match_def)

lemma escaped_body_text:
  assumes "decodeMap he ''lt'' = Some ''<''" and "decodeMap he ''gt'' = Some ''>''"
    and "decodeMap he ''amp'' = Some ''&''"
    and "attrs \<noteq> []" and "CHR ''>'' \<notin> set attrs" and "\<not> list_ex is_line_terminator attrs"
  shows "striptags (he_decode he (htmlText (''<text'' @ attrs @ CHR ''>'' # escaped_body)))
           = ''Hi&Bye''"
proof -
  have ng: "CHR ''>'' \<notin> set escaped_body" by (simp add: escaped_body_def)
  have "remove_tags False (unescape_amp 0 escaped_body) = ''&lt;b&gt;Hi&amp;Bye&lt;/b&gt;''"
    by code_simp
  then have "htmlText (''<text'' @ attrs @ CHR ''>'' # escaped_body)
               = ''&lt;b&gt;Hi&amp;Bye&lt;/b&gt;''"
    unfolding htmlText_def remove_text_open_tag [OF assms(4-6) ng] .
  moreover have "striptags ''<b>Hi&Bye</b>'' = ''Hi&Bye''" by code_simp
  ultimately show ?thesis by (simp add: he_decode_escaped_markup [OF assms(1-3)])
qed

text \<open>
  Claim C6. Let the tables of \<open>he\<close> decode \<open>&lt;\<close>, \<open>&gt;\<close> and \<open>&amp;\<close> as the package
  does. A document whose one segment has an opening tag \<open><text ...>\<close> in which both
  attribute patterns match, and the body
  \<open>&amp;lt;b&amp;gt;Hi&amp;amp;Bye&amp;lt;/b&amp;gt;\<close>, is parsed to one entry with the
  text \<open>Hi&Bye\<close>.
\<close>

theorem escaped_markup_is_stripped:
  assumes "decodeMap he ''lt'' = Some ''<''" and "decodeMap he ''gt'' = Some ''>''"
    and "decodeMap he ''amp'' = Some ''&''"
    and "replace_first (replace_first doc xml_prolog) ''</transcript>''
           = (''<text'' @ attrs @ CHR ''>'' # escaped_body) @ ''</text>''"
    and "attrs \<noteq> []" and "CHR ''<'' \<notin> set attrs" and "CHR ''>'' \<notin> set attrs"
    and "\<not> list_ex is_line_terminator attrs"
    and "startRegex_exec (''<text'' @ attrs @ CHR ''>'' # escaped_body) = Some st"
    and "durRegex_exec (''<text'' @ attrs @ CHR ''>'' # escaped_body) = Some du"
  shows "parseTranscript he doc = [\<lparr>start = st, dur = du, text' = ''Hi&Bye''\<rparr>]"
proof -
  let ?line = "''<text'' @ attrs @ CHR ''>'' # escaped_body"
  have "CHR ''<'' \<notin> set (''text'' @ attrs @ CHR ''>'' # escaped_body)"
    using assms(6) by (simp add: escaped_body_def)
  then have "\<not> str_includes (''text'' @ attrs @ CHR ''>'' # escaped_body) ''</text>''"
    by (rule str_includes_absent_head)
  then have ni: "list_all (\<lambda>s. \<not> str_includes s ''</text>'') ([?line] @ [[]])" by simp
  have "replace_first (replace_first doc xml_prolog) ''</transcript>''
          = concat (map (\<lambda>s. s @ ''</text>'') [?line]) @ []"
    using assms(4) by simp
  then have "parseTranscript he doc
               = map (entry_of he) (filter both_patterns_match ([?line] @ [[]]))"
    using ni by (rule parseTranscript_segments)
  moreover have "\<not> both_patterns_match []"
    by (simp add: both_patterns_match_def startRegex_exec_def)
  ultimately show ?thesis
    using assms(9,10) escaped_body_text [OF assms(1-3) assms(5) assms(7,8)]
    by (simp add: both_patterns_match_def entry_of_def)
qed

theorem escaped_markup_is_stripped_witness:
  \<open>decodeMap xml_tables ''lt'' = Some ''<'' \<and> decodeMap xml_tables ''gt'' = Some ''>''
   \<and> decodeMap xml_tables ''amp'' = Some ''&''
   \<and> replace_first
        (replace_first
           (xml_prolog @ (''<text'' @ '' start="1.0" dur="2.5"'' @ CHR ''>'' # escaped_body)
              @ ''</text></transcript>'')
           xml_prolog)
        ''</transcript>''
       = (''<text'' @ '' start="1.0" dur="2.5"'' @ CHR ''>'' # escaped_body) @ ''</text>''
   \<and> '' start="1.0" dur="2.5"'' \<noteq> []
   \<and> CHR ''<'' \<notin> set '' start="1.0" dur="2.5"''
   \<and> CHR ''>'' \<notin> set '' start="1.0" dur="2.5"''
   \<and> \<not> list_ex is_line_terminator '' start="1.0" dur="2.5"''
   \<and> startRegex_exec (''<text'' @ '' start="1.0" dur="2.5"'' @ CHR ''>'' # escaped_body)
       = Some ''1.0''
   \<and> durRegex_exec (''<text'' @ '' start="1.0" dur="2.5"'' @ CHR ''>'' # escaped_body)
       = Some ''2.5''
   \<and> parseTranscript xml_tables
        (xml_prolog @ (''<text'' @ '' start="1.0" dur="2.5"'' @ CHR ''>'' # escaped_body)
           @ ''</text></transcript>'')
       = [\<lparr>start = ''1.0'', dur = ''2.5'', text' = ''Hi&Bye''\<rparr>]\<close>
proof -
  let ?attrs = \<open>'' start="1.0" dur="2.5"''\<close>
  let ?line = "''<text'' @ ?attrs @ CHR ''>'' # escaped_body"
  let ?doc = "xml_prolog @ ?line @ ''</text></transcript>''"
  have a: "decodeMap xml_tables ''lt'' = Some ''<''" by (simp add: xml_tables_def)
  have b: "decodeMap xml_tables ''gt'' = Some ''>''" by (simp add: xml_tables_def)
  have c: "decodeMap xml_tables ''amp'' = Some ''&''" by (simp add: xml_tables_def)
  have d: "replace_first (replace_first ?doc xml_prolog) ''</transcript>'' = ?line @ ''</text>''"
    by code_simp
  have e: "?attrs \<noteq> []" by simp
  have f: "CHR ''<'' \<notin> set ?attrs" by simp
  have g: "CHR ''>'' \<notin> set ?attrs" by simp
  have h: "\<not> list_ex is_line_terminator ?attrs" by code_simp
  have i: "startRegex_exec ?line = Some ''1.0''" by code_simp
  have j: "durRegex_exec ?line = Some ''2.5''" by code_simp
  show ?thesis
    using a b c d e f g h i j escaped_markup_is_stripped [OF a b c d e f g h i j] by simp
qed

text \<open>
  Claim C8, as stated: the captured values are digits with an optional fractional part.
  It fails on a segment with \<open>start="1.2.3"\<close> and \<open>dur="."\<close>, which the patterns accept.
\<close>

theorem captured_value_need_not_be_decimal:
  \<open>parseTranscript xml_tables ''<text start="1.2.3" dur=".">x</text>''
     = [\<lparr>start = ''1.2.3'', dur = ''.'', text' = ''x''\<rparr>]
   \<and> \<not> is_decimal_text ''1.2.3'' \<and> \<not> is_decimal_text ''.''\<close>
  by code_simp

text \<open>
  Claim C8, amended. What the patterns capture for \<open>start\<close> and \<open>dur\<close> is a non-empty
  string of digits and dots, in any arrangement; it is kept as a string in the entry.
\<close>

theorem captured_value_digits_and_dots:
  "(startRegex_exec line = Some s \<longrightarrow> s \<noteq> [] \<and> list_all is_num_char s)
   \<and> (durRegex_exec line = Some d \<longrightarrow> d \<noteq> [] \<and> list_all is_num_char d)
   \<and> (\<forall>e \<in> set (parseTranscript he doc).
         start e \<noteq> [] \<and> list_all is_num_char (start e)
       \<and> dur e \<noteq> [] \<and> list_all is_num_char (dur e))"
proof -
  have "start e \<noteq> [] \<and> list_all is_num_char (start e)
      \<and> dur e \<noteq> [] \<and> list_all is_num_char (dur e)"
    if "e \<in> set (parseTranscript he doc)" for e
  proof -
    from that obtain l where l: "both_patterns_match l" "e = entry_of he l"
      by (auto simp: parseTranscript_lines)
    then obtain s d where "startRegex_exec l = Some s" "durRegex_exec l = Some d"
      by (auto simp: both_patterns_match_def)
    with l show ?thesis
      using attr_exec_chars [of _ l s] attr_exec_chars [of _ l d]
      by (simp add: entry_of_def startRegex_exec_def durRegex_exec_def)
  qed
  then show ?thesis
    using attr_exec_chars [of _ line s] attr_exec_chars [of _ line d]
    by (simp add: startRegex_exec_def durRegex_exec_def)
qed

theorem captured_value_digits_and_dots_witness:
  \<open>startRegex_exec ''<text start="1.0" dur="2.5">Hello'' = Some ''1.0''
   \<and> ''1.0'' \<noteq> [] \<and> list_all is_num_char ''1.0''
   \<and> durRegex_exec ''<text start="1.0" dur="2.5">Hello'' = Some ''2.5''
   \<and> ''2.5'' \<noteq> [] \<and> list_all is_num_char ''2.5''
   \<and> \<lparr>start = ''1.0'', dur = ''2.5'', text' = ''Hello''\<rparr>
       \<in> set (parseTranscript xml_tables ''<text start="1.0" dur="2.5">Hello</text>'')
   \<and> list_all is_num_char (start \<lparr>start = ''1.0'', dur = ''2.5'', text' = ''Hello''\<rparr>)
   \<and> list_all is_num_char (dur \<lparr>start = ''1.0'', dur = ''2.5'', text' = ''Hello''\<rparr>)\<close>
proof -
  have s: \<open>startRegex_exec ''<text start="1.0" dur="2.5">Hello'' = Some ''1.0''\<close> by code_simp
  have d: \<open>durRegex_exec ''<text start="1.0" dur="2.5">Hello'' = Some ''2.5''\<close> by code_simp
  have p: \<open>parseTranscript xml_tables ''<text start="1.0" dur="2.5">Hello</text>''
             = [\<lparr>start = ''1.0'', dur = ''2.5'', text' = ''Hello''\<rparr>]\<close> by code_simp
  show ?thesis
    using s d p
      captured_value_digits_and_dots
        [of \<open>''<text start="1.0" dur="2.5">Hello''\<close> "''1.0''" "''2.5''" xml_tables
            \<open>''<text start="1.0" dur="2.5">Hello</text>''\<close>]
    by simp
qed

end
